theory Spec2Isabelle
  imports Complex_Main
begin

section \<open>Filter-and-bin mapmaking: the notebook's grid, pointing and map binner\<close>

text \<open>
  The notebook \<^verbatim>\<open>filter_and_bin_mapmaking.ipynb\<close> works on NumPy arrays of float64 and on
  Python floats, both IEEE 754 binary64. An array element is modelled as the real
  number it holds. The grid construction, the histogram sums, the in-place
  accumulation and the division that forms the map round every result to binary64 as
  the hardware does. The pointing block is kept in exact arithmetic: its cosine is a
  library function whose rounding no standard fixes. A division whose divisor is zero
  yields a non-finite NumPy value (\<^verbatim>\<open>nan\<close> or \<^verbatim>\<open>inf\<close>); such a value is modelled
  explicitly, never by the total division of HOL.
\<close>

subsection \<open>Errors and external constants\<close>

datatype error = KeyError string | ValueError | IndexError | ZeroDivisionError

text \<open>
  \<^verbatim>\<open>core.G3Units\<close> (imported as \<^verbatim>\<open>U\<close>) belongs to the external toolkit. The constants the
  notebook reads are parameters of the model.
\<close>

record units =
  rahour :: real
  raminute :: real
  rasecond :: real
  degrees :: real
  deg :: real
  arcmin :: real
  arcsec :: real
  rad :: real
  mK :: real

subsection \<open>Binary64 arithmetic\<close>

text \<open>
  Rounding to the nearest binary64 value, ties to the even significand. A non-zero
  real \<open>x\<close> whose magnitude lies between \<open>2 ^ e\<close> and \<open>2 ^ (e + 1)\<close> is rounded to a
  multiple of \<open>2 ^ (e - 52)\<close> (53 significant bits), and to a multiple of
  \<open>2 ^ (- 1074)\<close> in the subnormal range. Overflow to infinity, from \<open>2 ^ 1024\<close> on, is
  not modelled: the rounded value stays a real.
\<close>

definition rhe :: "real \<Rightarrow> int" where
  "rhe y =
     (let f = \<lfloor>y\<rfloor>; d = y - of_int f
      in if d < 1 / 2 then f else if 1 / 2 < d then f + 1 else if even f then f else f + 1)"

definition ulp_exp :: "real \<Rightarrow> int" where
  "ulp_exp x = max (\<lfloor>log 2 \<bar>x\<bar>\<rfloor> - 52) (- 1074)"

definition round64 :: "real \<Rightarrow> real" where
  "round64 x =
     (if x = 0 then 0
      else of_int (rhe (x / 2 powr of_int (ulp_exp x))) * 2 powr of_int (ulp_exp x))"

text \<open>The four operations on finite operands; the divisor of \<open>f64_div\<close> is not zero.\<close>

definition f64_add :: "real \<Rightarrow> real \<Rightarrow> real" where
  "f64_add a b = round64 (a + b)"

definition f64_sub :: "real \<Rightarrow> real \<Rightarrow> real" where
  "f64_sub a b = round64 (a - b)"

definition f64_mul :: "real \<Rightarrow> real \<Rightarrow> real" where
  "f64_mul a b = round64 (a * b)"

definition f64_div :: "real \<Rightarrow> real \<Rightarrow> real" where
  "f64_div a b = round64 (a / b)"

text \<open>An integer converted to a float.\<close>

definition f64_of_nat :: "nat \<Rightarrow> real" where
  "f64_of_nat n = round64 (real n)"

text \<open>A real on the grid of the integer multiples of \<open>2 ^ k\<close>.\<close>

definition dyadic :: "int \<Rightarrow> real \<Rightarrow> bool" where
  "dyadic k x = (\<exists>m::int. x = of_int m * 2 powr of_int k)"

subsection \<open>Grid definition\<close>

text \<open>Python's \<^verbatim>\<open>int(x)\<close> on a float truncates toward zero.\<close>

definition py_int :: "real \<Rightarrow> int" where
  "py_int r = (if 0 \<le> r then \<lfloor>r\<rfloor> else \<lceil>r\<rceil>)"

text \<open>Python's \<^verbatim>\<open>a / b\<close> on floats raises on a zero divisor.\<close>

definition py_div :: "real \<Rightarrow> real \<Rightarrow> error + real" where
  "py_div a b = (if b = 0 then Inl ZeroDivisionError else Inr (f64_div a b))"

text \<open>
  \<^verbatim>\<open>np.linspace(start, stop, num)\<close> with the default \<^verbatim>\<open>endpoint=True\<close>, on floats. A
  negative \<^verbatim>\<open>num\<close> raises. Otherwise, with \<^verbatim>\<open>div = num - 1\<close> and
  \<^verbatim>\<open>delta = stop - start\<close>, the array \<^verbatim>\<open>y = arange(0, num)\<close> is multiplied by
  \<^verbatim>\<open>step = delta / div\<close> when \<^verbatim>\<open>div > 0\<close> and the step is not zero, divided by \<^verbatim>\<open>div\<close>
  and multiplied by \<^verbatim>\<open>delta\<close> when the step is zero, and multiplied by \<^verbatim>\<open>delta\<close> when
  \<^verbatim>\<open>div\<close> is zero; then \<^verbatim>\<open>start\<close> is added, and the last entry is overwritten with
  \<^verbatim>\<open>stop\<close> when \<^verbatim>\<open>num > 1\<close>.
\<close>

definition linspace :: "real \<Rightarrow> real \<Rightarrow> int \<Rightarrow> error + real list" where
  "linspace start stop num =
     (if num < 0 then Inl ValueError
      else
        let n = nat num;
            d = n - 1;
            delta = f64_sub stop start;
            y = map f64_of_nat [0..<n];
            y' = (if 0 < d then
                    (let step = f64_div delta (f64_of_nat d)
                     in if step = 0 then map (\<lambda>v. f64_mul (f64_div v (f64_of_nat d)) delta) y
                        else map (\<lambda>v. f64_mul v step) y)
                  else map (\<lambda>v. f64_mul v delta) y);
            y'' = map (\<lambda>v. f64_add v start) y'
        in Inr (if 1 < n then y''[n - 1 := stop] else y''))"

text \<open>
  One axis of the grid cell: \<^verbatim>\<open>np.linspace(-len / 2, len / 2, n + 1) + c0\<close>, the
  expression the cell writes once for right ascension and once for declination.
\<close>

definition axis_edges :: "real \<Rightarrow> int \<Rightarrow> real \<Rightarrow> error + real list" where
  "axis_edges len n c0 =
     (case linspace (f64_div (- len) 2) (f64_div len 2) (n + 1) of
        Inl e \<Rightarrow> Inl e
      | Inr es \<Rightarrow> Inr (map (\<lambda>e. f64_add e c0) es))"

record grid =
  nx :: int
  ny :: int
  ra_edges :: "real list"
  dec_edges :: "real list"

text \<open>
  The grid cell of the notebook, statement by statement; \<open>u\<close> stands for the unit
  constants \<^verbatim>\<open>U\<close>, and a decimal literal for the float nearest to it.
\<close>

definition grid_cell :: "units \<Rightarrow> error + grid" where
  "grid_cell u =
     (let ra0 = f64_add (f64_add (f64_mul (round64 8.0) (rahour u))
                                 (f64_mul (round64 59.0) (raminute u)))
                        (f64_mul (round64 4.8) (rasecond u));
          dec0 = - f64_add (f64_add (f64_mul (round64 47.0) (degrees u))
                                    (f64_mul (round64 30.0) (arcmin u)))
                           (f64_mul (round64 36.0) (arcsec u));
          xlen = f64_mul (round64 0.5) (deg u);
          ylen = f64_mul (round64 0.5) (deg u);
          res = f64_mul (round64 0.5) (arcmin u)
      in case py_div xlen res of Inl e \<Rightarrow> Inl e | Inr qx \<Rightarrow>
         (case py_div ylen res of Inl e \<Rightarrow> Inl e | Inr qy \<Rightarrow>
         (case axis_edges xlen (py_int qx) ra0 of Inl e \<Rightarrow> Inl e | Inr re \<Rightarrow>
         (case axis_edges ylen (py_int qy) dec0 of Inl e \<Rightarrow> Inl e | Inr de \<Rightarrow>
            Inr \<lparr>nx = py_int qx, ny = py_int qy, ra_edges = re, dec_edges = de\<rparr>))))"

subsection \<open>NumPy values that may be non-finite\<close>

text \<open>
  The result of an elementwise NumPy operation on floats: a finite number, an infinity
  (the sign plays no part in what follows) or not-a-number.
\<close>

datatype npfloat = Finite real | Inf | NaN

text \<open>
  \<^verbatim>\<open>a / b\<close> on arrays, in the exact arithmetic of the pointing block: a zero divisor
  gives \<^verbatim>\<open>nan\<close> for \<^verbatim>\<open>0 / 0\<close> and \<^verbatim>\<open>inf\<close> otherwise.
\<close>

fun np_divide :: "npfloat \<Rightarrow> npfloat \<Rightarrow> npfloat" where
  "np_divide (Finite a) (Finite b) =
     (if b = 0 then (if a = 0 then NaN else Inf) else Finite (a / b))"
| "np_divide (Finite a) Inf = Finite 0"
| "np_divide Inf (Finite b) = Inf"
| "np_divide Inf Inf = NaN"
| "np_divide NaN b = NaN"
| "np_divide a NaN = NaN"


fun np_cos :: "npfloat \<Rightarrow> npfloat" where
  "np_cos (Finite a) = Finite (cos a)"
| "np_cos Inf = NaN"
| "np_cos NaN = NaN"

text \<open>A finite array element plus a possibly non-finite one.\<close>

fun np_shift :: "real \<Rightarrow> npfloat \<Rightarrow> npfloat" where
  "np_shift r (Finite a) = Finite (r + a)"
| "np_shift r Inf = Inf"
| "np_shift r NaN = NaN"

text \<open>
  \<^verbatim>\<open>a + b\<close> on one-dimensional arrays, with NumPy's broadcasting: equal lengths add
  elementwise, an operand of length one is stretched, anything else raises.
\<close>

definition np_add :: "real list \<Rightarrow> npfloat list \<Rightarrow> error + npfloat list" where
  "np_add a b =
     (if length a = length b then Inr (map2 np_shift a b)
      else if length a = 1 then Inr (map (np_shift (hd a)) b)
      else if length b = 1 then Inr (map (\<lambda>r. np_shift r (hd b)) a)
      else Inl ValueError)"

subsection \<open>Globals, frames and the binner object\<close>

text \<open>
  The binner reads module-level names: the grid (\<^verbatim>\<open>nx\<close>, \<^verbatim>\<open>ny\<close>, \<^verbatim>\<open>ra_edges\<close>,
  \<^verbatim>\<open>dec_edges\<close>), the detector offsets \<^verbatim>\<open>xoff\<close> and \<^verbatim>\<open>yoff\<close> taken from the calibration
  frame, and the unit constants.
\<close>

record globals = grid +
  xoff :: "string \<rightharpoonup> real"
  yoff :: "string \<rightharpoonup> real"
  U :: units

text \<open>
  A frame is a dictionary of typed values. The model keeps the keys that hold a
  timestream map (detector name to samples) apart from the keys that hold a single
  timestream (the boresight pointing).
\<close>

record frame =
  tsmaps :: "string \<rightharpoonup> (string \<rightharpoonup> real list)"
  series :: "string \<rightharpoonup> real list"

record binner =
  det :: string
  timestreams :: string
  data :: "real list list"
  hits :: "real list list"

definition zeros :: "nat \<Rightarrow> nat \<Rightarrow> real list list" where
  "zeros r c = replicate r (replicate c 0)"

text \<open>\<^verbatim>\<open>SingleMapBinner.__init__\<close>; \<^verbatim>\<open>np.zeros\<close> raises on a negative dimension.\<close>

definition SingleMapBinner_init :: "globals \<Rightarrow> string \<Rightarrow> string \<Rightarrow> error + binner" where
  "SingleMapBinner_init env d ts =
     (if ny env < 0 \<or> nx env < 0 then Inl ValueError
      else Inr \<lparr>det = d, timestreams = ts,
                data = zeros (nat (ny env)) (nat (nx env)),
                hits = zeros (nat (ny env)) (nat (nx env))\<rparr>)"

subsection \<open>Pointing reconstruction\<close>

text \<open>
  The block under \<^verbatim>\<open># calculate offset pointing\<close> of \<^verbatim>\<open>__call__\<close>, in the order the
  statements run: \<^verbatim>\<open>dy = yoff[det]\<close>, \<^verbatim>\<open>y = asarray(frame["BoresightDec"]) - dy\<close>,
  \<^verbatim>\<open>dx = xoff[det] / cos(y / U.rad)\<close>, \<^verbatim>\<open>x = asarray(frame["BoresightRa"]) + dx\<close>.
\<close>

definition offset_pointing :: "globals \<Rightarrow> string \<Rightarrow> frame \<Rightarrow> error + (real list \<times> npfloat list)" where
  "offset_pointing env d fr =
     (case yoff env d of None \<Rightarrow> Inl (KeyError d) | Some dy \<Rightarrow>
     (case series fr ''BoresightDec'' of None \<Rightarrow> Inl (KeyError ''BoresightDec'') | Some dec \<Rightarrow>
        let y = map (\<lambda>v. v - dy) dec in
     (case xoff env d of None \<Rightarrow> Inl (KeyError d) | Some ox \<Rightarrow>
        let dx = map (\<lambda>v. np_divide (Finite ox)
                              (np_cos (np_divide (Finite v) (Finite (rad (U env)))))) y in
     (case series fr ''BoresightRa'' of None \<Rightarrow> Inl (KeyError ''BoresightRa'') | Some ra \<Rightarrow>
     (case np_add ra dx of Inl e \<Rightarrow> Inl e | Inr x \<Rightarrow> Inr (y, x))))))"

subsection \<open>The two-dimensional histogram\<close>

text \<open>
  \<^verbatim>\<open>np.histogram2d\<close> with explicit edge arrays, as NumPy's \<^verbatim>\<open>histogramdd\<close> computes it.
  \<^verbatim>\<open>searchsorted(edges, v, side='right')\<close> on a monotone array is the number of
  edges not above \<open>v\<close>; a sample equal to the last edge is moved one bin to the left;
  bin numbers \<open>0\<close> and \<open>len(edges)\<close> are the outliers that the final slice removes.
  A non-finite sample sorts before or after every edge and is an outlier.
\<close>

definition searchsorted_right :: "real list \<Rightarrow> real \<Rightarrow> nat" where
  "searchsorted_right edges v = length (takeWhile (\<lambda>e. e \<le> v) edges)"

definition core_bin :: "real list \<Rightarrow> npfloat \<Rightarrow> nat option" where
  "core_bin edges v =
     (case v of
        Finite r \<Rightarrow>
          let c = searchsorted_right edges r;
              c' = (if r = last edges then c - 1 else c)
          in if 1 \<le> c' \<and> c' < length edges then Some (c' - 1) else None
      | _ \<Rightarrow> None)"

definition cell_of :: "real list \<Rightarrow> real list \<Rightarrow> npfloat \<times> npfloat \<Rightarrow> (nat \<times> nat) option" where
  "cell_of xedges yedges p =
     (case core_bin xedges (fst p) of None \<Rightarrow> None
      | Some i \<Rightarrow> (case core_bin yedges (snd p) of None \<Rightarrow> None | Some j \<Rightarrow> Some (i, j)))"

text \<open>
  \<^verbatim>\<open>np.bincount\<close> with weights starts every bin at \<open>0.0\<close> and adds the weights of its
  samples one by one, in the order of the samples, rounding after each addition.
\<close>

definition f64_sum :: "real list \<Rightarrow> real" where
  "f64_sum ws = foldl f64_add 0 ws"

definition sum_cell :: "real list \<Rightarrow> real list \<Rightarrow> ((npfloat \<times> npfloat) \<times> real) list \<Rightarrow> nat \<Rightarrow> nat \<Rightarrow> real" where
  "sum_cell xedges yedges pw i j =
     f64_sum (map snd (filter (\<lambda>(p, w). cell_of xedges yedges p = Some (i, j)) pw))"

text \<open>Without weights the bins are integer counts, converted to float at the end.\<close>

definition count_cell :: "real list \<Rightarrow> real list \<Rightarrow> (npfloat \<times> npfloat) list \<Rightarrow> nat \<Rightarrow> nat \<Rightarrow> real" where
  "count_cell xedges yedges ps i j =
     f64_of_nat (length (filter (\<lambda>p. cell_of xedges yedges p = Some (i, j)) ps))"

definition histogram2d ::
  "npfloat list \<Rightarrow> npfloat list \<Rightarrow> real list \<Rightarrow> real list \<Rightarrow> real list option \<Rightarrow> error + real list list" where
  "histogram2d x y xedges yedges weights =
     (if length x \<noteq> length y then Inl ValueError
      else if \<not> sorted xedges \<or> \<not> sorted yedges then Inl ValueError
      else if xedges = [] \<or> yedges = [] then Inl IndexError
      else
        (case weights of
           None \<Rightarrow>
             Inr (map (\<lambda>i. map (\<lambda>j. count_cell xedges yedges (zip x y) i j)
                                [0..<length yedges - 1]) [0..<length xedges - 1])
         | Some w \<Rightarrow>
             if length w \<noteq> length x then Inl ValueError
             else Inr (map (\<lambda>i. map (\<lambda>j. sum_cell xedges yedges (zip (zip x y) w) i j)
                                [0..<length yedges - 1]) [0..<length xedges - 1])))"

subsection \<open>Accumulation\<close>

text \<open>
  \<^verbatim>\<open>a += h\<close> on two-dimensional arrays: elementwise float addition. For the arrays the
  grid cell and the binner build, the operand has the shape of the target; a different
  shape raises (NumPy's stretching of an axis of length one is not modelled).
\<close>

definition iadd :: "real list list \<Rightarrow> real list list \<Rightarrow> error + real list list" where
  "iadd a h =
     (if list_all2 (\<lambda>r s. length r = length s) a h then Inr (map2 (map2 f64_add) a h)
      else Inl ValueError)"

text \<open>\<^verbatim>\<open>SingleMapBinner.__call__\<close>: the updated binner, or the exception raised.\<close>

definition SingleMapBinner_call :: "globals \<Rightarrow> binner \<Rightarrow> frame \<Rightarrow> error + binner" where
  "SingleMapBinner_call env self fr =
     (case tsmaps fr (timestreams self) of None \<Rightarrow> Inr self | Some tsmap \<Rightarrow>
     (case tsmap (det self) of None \<Rightarrow> Inr self | Some ts \<Rightarrow>
     (case offset_pointing env (det self) fr of Inl e \<Rightarrow> Inl e | Inr (y, x) \<Rightarrow>
     (case histogram2d (map Finite y) x (dec_edges env) (ra_edges env) (Some ts) of
        Inl e \<Rightarrow> Inl e | Inr H \<Rightarrow>
     (case iadd (data self) H of Inl e \<Rightarrow> Inl e | Inr data' \<Rightarrow>
     (case histogram2d (map Finite y) x (dec_edges env) (ra_edges env) None of
        Inl e \<Rightarrow> Inl e | Inr Hc \<Rightarrow>
     (case iadd (hits self) Hc of Inl e \<Rightarrow> Inl e | Inr hits' \<Rightarrow>
        Inr (self\<lparr>data := data', hits := hits'\<rparr>))))))))"

text \<open>
  The pipeline hands the frames of the stream to the binner one after the other; an
  exception ends the run.
\<close>

fun run :: "globals \<Rightarrow> binner \<Rightarrow> frame list \<Rightarrow> error + binner" where
  "run env self [] = Inr self"
| "run env self (fr # frs) =
     (case SingleMapBinner_call env self fr of
        Inl e \<Rightarrow> Inl e
      | Inr self' \<Rightarrow> run env self' frs)"



subsection \<open>Pixels, samples and means, as the specification words them\<close>







text \<open>
  What a cell of \<^verbatim>\<open>data\<close> and of \<^verbatim>\<open>hits\<close> holds after a run: each record contributes
  the float sum, or the count, of its own samples, added to the cell in one float
  addition.
\<close>

definition acc_data :: "real \<Rightarrow> real list list \<Rightarrow> real" where
  "acc_data d0 ss = foldl (\<lambda>d s. f64_add d (f64_sum s)) d0 ss"

definition acc_hits :: "real \<Rightarrow> real list list \<Rightarrow> real" where
  "acc_hits h0 ss = foldl (\<lambda>h s. f64_add h (f64_of_nat (length s))) h0 ss"

text \<open>
  The arithmetic mean; an empty sequence has none.
\<close>

definition arithmetic_mean :: "real list \<Rightarrow> real option" where
  "arithmetic_mean xs = (if xs = [] then None else Some (sum_list xs / real (length xs)))"

text \<open>
  Two arrays of rows have the same shape.
\<close>

definition same_shape :: "real list list \<Rightarrow> real list list \<Rightarrow> bool" where
  "same_shape a h = list_all2 (\<lambda>r s. length r = length s) a h"

subsection \<open>The mean filters\<close>

text \<open>
  Modelled from the spec: \<^verbatim>\<open>MeanFilter\<close> is an exercise the notebook leaves to the reader
  (its cell holds only \<^verbatim>\<open># your code and plots go here\<close>). Section 4.3 of the
  specification, unmasked form: subtract the arithmetic mean of the samples from every
  element. An empty sequence has no element to subtract from.
\<close>

definition MeanFilter :: "real list \<Rightarrow> real list" where
  "MeanFilter samples =
     (case arithmetic_mean samples of None \<Rightarrow> samples | Some m \<Rightarrow> map (\<lambda>s. s - m) samples)"

text \<open>
  Modelled from the spec: the filter is applied per detector and per record; the
  module that maps it over the timestream map of a record is missing from the notebook
  as well.
\<close>

definition MeanFilter_record :: "(string \<rightharpoonup> real list) \<Rightarrow> (string \<rightharpoonup> real list)" where
  "MeanFilter_record tsmap = (\<lambda>d. map_option MeanFilter (tsmap d))"

text \<open>
  Modelled from the spec: \<^verbatim>\<open>MaskedMeanFilter\<close> is the second exercise without code.
  Section 4.3, masked form: the mean is taken over the samples whose pointing lies at
  an angular distance greater than \<^verbatim>\<open>radius\<close> from \<^verbatim>\<open>center\<close>. The specification
  does not fix the distance function; it is a parameter.
\<close>

definition masked_mean :: "('p \<Rightarrow> 'p \<Rightarrow> real) \<Rightarrow> real list \<Rightarrow> 'p list \<Rightarrow> 'p \<Rightarrow> real \<Rightarrow> real option" where
  "masked_mean angdist samples pointing center radius =
     arithmetic_mean (map fst (filter (\<lambda>sp. radius < angdist (snd sp) center) (zip samples pointing)))"

text \<open>
  Modelled from the spec: the restricted mean is subtracted from all samples of the
  record, the masked ones included. When no sample lies outside the mask there is no
  restricted mean and no result.
\<close>

definition MaskedMeanFilter ::
  "('p \<Rightarrow> 'p \<Rightarrow> real) \<Rightarrow> real list \<Rightarrow> 'p list \<Rightarrow> 'p \<Rightarrow> real \<Rightarrow> real list option" where
  "MaskedMeanFilter angdist samples pointing center radius =
     (case masked_mean angdist samples pointing center radius of
        None \<Rightarrow> None
      | Some m \<Rightarrow> Some (map (\<lambda>s. s - m) samples))"

text \<open>
  The synthetic record of the masked-filter property: \<open>n\<close> samples of a constant
  background \<open>b\<close>, with a spike of magnitude \<open>a\<close> added at sample \<open>k\<close>.
\<close>

definition spike_record :: "nat \<Rightarrow> real \<Rightarrow> nat \<Rightarrow> real \<Rightarrow> real list" where
  "spike_record n b k a = (replicate n b)[k := b + a]"

subsection \<open>Concrete inputs\<close>

text \<open>
  The end-to-end scenario of the specification: one detector with offset \<open>(0, 0)\<close>,
  boresight \<open>y = [0, 0, 0]\<close> and \<open>x = [0, 1, 2]\<close>, signal \<open>[10, 20, 30]\<close>, on a grid of
  one row and four unit-wide columns. Further frames exercise the other paths.
\<close>

definition scenario_units :: units where
  "scenario_units = \<lparr>rahour = 15, raminute = 1 / 4, rasecond = 1 / 240, degrees = 1, deg = 1,
     arcmin = 1 / 60, arcsec = 1 / 3600, rad = 1, mK = 1\<rparr>"

definition scenario_env :: globals where
  "scenario_env = \<lparr>nx = 4, ny = 1, ra_edges = [0, 1, 2, 3, 4], dec_edges = [- 1 / 2, 1 / 2],
     xoff = [''det0'' \<mapsto> 0], yoff = [''det0'' \<mapsto> 0], U = scenario_units\<rparr>"

definition scenario_binner :: binner where
  "scenario_binner = \<lparr>det = ''det0'', timestreams = ''CalTimestreams'',
     data = [[0, 0, 0, 0]], hits = [[0, 0, 0, 0]]\<rparr>"

definition scenario_frame :: frame where
  "scenario_frame = \<lparr>tsmaps = [''CalTimestreams'' \<mapsto> [''det0'' \<mapsto> [10, 20, 30]]],
     series = [''BoresightDec'' \<mapsto> [0, 0, 0], ''BoresightRa'' \<mapsto> [0, 1, 2]]\<rparr>"

definition after_scenario :: binner where
  "after_scenario = \<lparr>det = ''det0'', timestreams = ''CalTimestreams'',
     data = [[10, 20, 30, 0]], hits = [[1, 1, 1, 0]]\<rparr>"

definition second_frame :: frame where
  "second_frame = \<lparr>tsmaps = [''CalTimestreams'' \<mapsto> [''det0'' \<mapsto> [4, 6, 8]]],
     series = [''BoresightDec'' \<mapsto> [0, 0, 3], ''BoresightRa'' \<mapsto> [1, 4, 2]]\<rparr>"

definition after_second :: binner where
  "after_second = \<lparr>det = ''det0'', timestreams = ''CalTimestreams'',
     data = [[0, 4, 0, 6]], hits = [[0, 1, 0, 1]]\<rparr>"

definition after_both :: binner where
  "after_both = \<lparr>det = ''det0'', timestreams = ''CalTimestreams'',
     data = [[10, 24, 30, 6]], hits = [[1, 2, 1, 1]]\<rparr>"

definition far_frame :: frame where
  "far_frame = \<lparr>tsmaps = [''CalTimestreams'' \<mapsto> [''det0'' \<mapsto> [7, 9]]],
     series = [''BoresightDec'' \<mapsto> [0, 2], ''BoresightRa'' \<mapsto> [5, 1]]\<rparr>"

definition housekeeping_frame :: frame where
  "housekeeping_frame = \<lparr>tsmaps = Map.empty, series = Map.empty\<rparr>"

definition stray_frame :: frame where
  "stray_frame = \<lparr>tsmaps = [''CalTimestreams'' \<mapsto> [''det9'' \<mapsto> [10, 20, 30]]],
     series = [''BoresightDec'' \<mapsto> [0, 0, 0], ''BoresightRa'' \<mapsto> [0, 1, 2]]\<rparr>"

definition stray_binner :: binner where
  "stray_binner = \<lparr>det = ''det9'', timestreams = ''CalTimestreams'',
     data = [[0, 0, 0, 0]], hits = [[0, 0, 0, 0]]\<rparr>"



definition line_dist :: "real \<Rightarrow> real \<Rightarrow> real" where
  "line_dist p c = \<bar>p - c\<bar>"




section \<open>Properties\<close>

subsection \<open>Rounding to binary64\<close>

text \<open>
  A real that is an integer multiple of \<open>2 ^ k\<close> with fewer than 54 significant bits
  is a binary64 value: rounding returns it unchanged. Rounding is idempotent, keeps
  zero and one, and never takes a value of at least one below one.
\<close>

lemma rhe_of_int [simp]: "rhe (of_int m) = m"
  by (simp add: rhe_def)

lemma rhe_bounds: "\<lfloor>y\<rfloor> \<le> rhe y" "rhe y \<le> \<lfloor>y\<rfloor> + 1"
  by (simp_all add: rhe_def Let_def)

lemma round64_zero [simp]: "round64 0 = 0"
  by (simp add: round64_def)

lemma ulp_exp_ge: "- 1074 \<le> ulp_exp x"
  by (simp add: ulp_exp_def)

lemma floor_log2_bounds:
  assumes "x \<noteq> 0"
  shows "2 powr of_int \<lfloor>log 2 \<bar>x\<bar>\<rfloor> \<le> \<bar>x\<bar>" and "\<bar>x\<bar> < 2 powr of_int (\<lfloor>log 2 \<bar>x\<bar>\<rfloor> + 1)"
  using assms floor_log_eq_powr_iff [of "\<bar>x\<bar>" 2 "\<lfloor>log 2 \<bar>x\<bar>\<rfloor>"] by simp_all

lemma ulp_exp_eqI:
  assumes "2 powr of_int e \<le> \<bar>x\<bar>" and "\<bar>x\<bar> < 2 powr of_int (e + 1)"
  shows "ulp_exp x = max (e - 52) (- 1074)"
proof -
  have "(0::real) < 2 powr of_int e" by simp
  with assms(1) have "0 < \<bar>x\<bar>" by linarith
  then have "\<lfloor>log 2 \<bar>x\<bar>\<rfloor> = e"
    using assms by (simp add: floor_log_eq_powr_iff)
  then show ?thesis by (simp add: ulp_exp_def)
qed

lemma scaled_lt:
  assumes "x \<noteq> 0"
  shows "\<bar>x / 2 powr of_int (ulp_exp x)\<bar> < 2 ^ 53"
proof -
  let ?e = "\<lfloor>log 2 \<bar>x\<bar>\<rfloor>"
  have "?e + 1 \<le> ulp_exp x + 53" by (simp add: ulp_exp_def)
  then have "(of_int (?e + 1) :: real) \<le> of_int (ulp_exp x + 53)" by (simp only: of_int_le_iff)
  then have le: "(2::real) powr of_int (?e + 1) \<le> 2 powr of_int (ulp_exp x + 53)"
    by (simp only: powr_le_cancel_iff [of 2] one_less_numeral_iff semiring_norm)
  have "\<bar>x\<bar> < 2 powr of_int (?e + 1)" using assms by (rule floor_log2_bounds)
  also note le
  also have "(2::real) powr of_int (ulp_exp x + 53) = 2 powr of_int (ulp_exp x) * 2 ^ 53"
    by (simp add: powr_add)
  finally have "\<bar>x\<bar> / 2 powr of_int (ulp_exp x) < 2 ^ 53"
    by (simp add: divide_less_eq mult.commute)
  then show ?thesis by simp
qed

lemma rhe_abs_le:
  assumes "\<bar>y\<bar> < 2 ^ 53"
  shows "\<bar>rhe y\<bar> \<le> 2 ^ 53"
proof -
  from assms have "y < of_int (2 ^ 53)" and "of_int (- (2 ^ 53)) \<le> y" by simp_all
  then have "\<lfloor>y\<rfloor> < 2 ^ 53" and "- (2 ^ 53) \<le> \<lfloor>y\<rfloor>"
    by (simp_all only: floor_less_iff le_floor_iff)
  then show ?thesis using rhe_bounds [of y] by linarith
qed

lemma dyadicI: "x = of_int m * 2 powr of_int k \<Longrightarrow> dyadic k x"
  unfolding dyadic_def by blast


lemma dyadic_zero [simp]: "dyadic k 0"
  by (rule dyadicI [of _ 0]) simp



lemma two_powr_nonneg_int:
  assumes "0 \<le> j"
  shows "(2::real) powr of_int j = of_int (2 ^ nat j)"
proof -
  have "(2::real) powr of_int j = 2 powr real (nat j)" using assms by simp
  also have "\<dots> = 2 ^ nat j" by (simp only: powr_realpow zero_less_numeral)
  finally show ?thesis by simp
qed

lemma dyadic_coarser:
  assumes "dyadic k x" and "u \<le> k"
  shows "dyadic u x"
proof -
  from assms(1) obtain m :: int where x: "x = of_int m * 2 powr of_int k"
    unfolding dyadic_def by blast
  have "(2::real) powr of_int k = 2 powr (of_int (k - u) + of_int u)" by simp
  also have "\<dots> = 2 powr of_int (k - u) * 2 powr of_int u" by (simp only: powr_add)
  also have "(2::real) powr of_int (k - u) = of_int (2 ^ nat (k - u))"
    using assms(2) by (intro two_powr_nonneg_int) simp
  finally have "x = of_int (m * 2 ^ nat (k - u)) * 2 powr of_int u"
    by (simp add: x)
  then show ?thesis by (rule dyadicI)
qed


lemma round64_on_grid:
  assumes "dyadic (ulp_exp x) x"
  shows "round64 x = x"
proof (cases "x = 0")
  case True then show ?thesis by simp
next
  case False
  from assms obtain m :: int where x: "x = of_int m * 2 powr of_int (ulp_exp x)"
    unfolding dyadic_def by blast
  have "x / 2 powr of_int (ulp_exp x) = of_int m"
    by (subst x) simp
  then have "round64 x = of_int m * 2 powr of_int (ulp_exp x)"
    using False by (simp add: round64_def)
  with x show ?thesis by simp
qed

lemma round64_exact:
  assumes "dyadic k x" and "\<bar>x\<bar> < 2 ^ 53 * 2 powr of_int k" and "- 1074 \<le> k"
  shows "round64 x = x"
proof (cases "x = 0")
  case True then show ?thesis by simp
next
  case False
  let ?e = "\<lfloor>log 2 \<bar>x\<bar>\<rfloor>"
  have "2 powr of_int ?e \<le> \<bar>x\<bar>" using False by (rule floor_log2_bounds)
  also note assms(2)
  also have "(2::real) ^ 53 * 2 powr of_int k = 2 powr of_int (53 + k)"
    by (simp add: powr_add)
  finally have "(of_int ?e :: real) < of_int (53 + k)"
    by (simp only: powr_less_cancel_iff [of 2] one_less_numeral_iff semiring_norm)
  then have "?e < 53 + k" by (simp only: of_int_less_iff)
  then have "ulp_exp x \<le> k" using assms(3) by (simp add: ulp_exp_def)
  with assms(1) have "dyadic (ulp_exp x) x" by (rule dyadic_coarser)
  then show ?thesis by (rule round64_on_grid)
qed

lemma round64_idem [simp]: "round64 (round64 x) = round64 x"
proof (cases "x = 0")
  case True then show ?thesis by simp
next
  case False
  let ?u = "ulp_exp x"
  let ?R = "rhe (x / 2 powr of_int ?u)"
  have r: "round64 x = of_int ?R * 2 powr of_int ?u" using False by (simp add: round64_def)
  have le: "\<bar>?R\<bar> \<le> 2 ^ 53" using scaled_lt [OF False] by (rule rhe_abs_le)
  show ?thesis
  proof (cases "\<bar>?R\<bar> < 2 ^ 53")
    case True
    have "dyadic ?u (round64 x)" using r by (rule dyadicI)
    moreover have "\<bar>round64 x\<bar> < 2 ^ 53 * 2 powr of_int ?u"
    proof -
      have "(of_int \<bar>?R\<bar> :: real) < of_int (2 ^ 53)" using True by (simp only: of_int_less_iff)
      then have "\<bar>of_int ?R :: real\<bar> < 2 ^ 53" by simp
      then show ?thesis by (simp add: r abs_mult)
    qed
    ultimately show ?thesis using ulp_exp_ge by (rule round64_exact)
  next
    case False
    with le have eq: "\<bar>?R\<bar> = 2 ^ 53" by simp
    then consider "?R = 2 ^ 53" | "?R = - (2 ^ 53)" by linarith
    then obtain h :: int where h: "\<bar>h\<bar> = 2 ^ 52" and R: "?R = 2 * h"
    proof cases
      case 1
      then have "\<bar>2 ^ 52 :: int\<bar> = 2 ^ 52" "?R = 2 * 2 ^ 52" by simp_all
      then show ?thesis by (rule that)
    next
      case 2
      then have "\<bar>- (2 ^ 52) :: int\<bar> = 2 ^ 52" "?R = 2 * - (2 ^ 52)" by simp_all
      then show ?thesis by (rule that)
    qed
    have "(of_int ?R :: real) = 2 * of_int h" by (simp only: R of_int_mult of_int_numeral)
    then have r2: "round64 x = of_int h * 2 powr of_int (?u + 1)"
      by (simp add: r powr_add)
    then have "dyadic (?u + 1) (round64 x)" by (rule dyadicI)
    moreover have "\<bar>round64 x\<bar> < 2 ^ 53 * 2 powr of_int (?u + 1)"
    proof -
      have "(of_int \<bar>h\<bar> :: real) = of_int (2 ^ 52)" using h by (simp only:)
      then have "\<bar>of_int h :: real\<bar> = 2 ^ 52" by simp
      then show ?thesis by (simp add: r2 abs_mult)
    qed
    moreover have "- 1074 \<le> ?u + 1" using ulp_exp_ge [of x] by simp
    ultimately show ?thesis by (rule round64_exact)
  qed
qed

lemma round64_of_int:
  assumes "\<bar>m\<bar> < 2 ^ 53"
  shows "round64 (of_int m) = of_int m"
proof (rule round64_exact [where k = 0])
  show "dyadic 0 (of_int m)" by (rule dyadicI [of _ m]) simp
  have "(of_int \<bar>m\<bar> :: real) < of_int (2 ^ 53)" using assms by (simp only: of_int_less_iff)
  then show "\<bar>of_int m :: real\<bar> < 2 ^ 53 * 2 powr of_int 0" by simp
qed simp




lemma round64_one [simp]: "round64 1 = 1"
  using round64_of_int [of 1] by simp

lemma round64_neg_one [simp]: "round64 (- 1) = - 1"
  using round64_of_int [of "- 1"] by simp

lemma round64_numeral:
  assumes "(numeral n :: int) < 2 ^ 53"
  shows "round64 (numeral n) = numeral n"
proof -
  have "\<bar>numeral n :: int\<bar> < 2 ^ 53" using assms by simp
  then have "round64 (of_int (numeral n)) = of_int (numeral n)" by (rule round64_of_int)
  then show ?thesis by simp
qed

lemma round64_neg_numeral:
  assumes "(numeral n :: int) < 2 ^ 53"
  shows "round64 (- numeral n) = - numeral n"
proof -
  have "\<bar>- numeral n :: int\<bar> < 2 ^ 53" using assms by simp
  then have "round64 (of_int (- numeral n)) = of_int (- numeral n)" by (rule round64_of_int)
  then show ?thesis by simp
qed

lemma round64_evalI:
  assumes "2 powr of_int e \<le> \<bar>x\<bar>" and "\<bar>x\<bar> < 2 powr of_int (e + 1)"
    and "u = max (e - 52) (- 1074)"
  shows "round64 x = of_int (rhe (x / 2 powr of_int u)) * 2 powr of_int u"
proof -
  have "(0::real) < 2 powr of_int e" by simp
  with assms(1) have "x \<noteq> 0" by auto
  moreover have "ulp_exp x = u" using assms by (simp add: ulp_exp_eqI)
  ultimately show ?thesis by (simp add: round64_def)
qed


lemma f64_add_zero_left: "f64_add 0 b = round64 b"
  by (simp add: f64_add_def)

lemma f64_add_zero_right: "f64_add a 0 = round64 a"
  by (simp add: f64_add_def)

lemma f64_add_fixed [simp]: "round64 (f64_add a b) = f64_add a b"
  by (simp add: f64_add_def)

lemma f64_of_nat_fixed [simp]: "round64 (f64_of_nat n) = f64_of_nat n"
  by (simp add: f64_of_nat_def)

lemma f64_of_nat_zero [simp]: "f64_of_nat 0 = 0"
  by (simp add: f64_of_nat_def)



lemma f64_sum_Nil [simp]: "f64_sum [] = 0"
  by (simp add: f64_sum_def)

lemma foldl_f64_add_fixed:
  "round64 a = a \<Longrightarrow> round64 (foldl f64_add a ws) = foldl f64_add a ws"
  by (induction ws arbitrary: a) simp_all

lemma f64_sum_fixed [simp]: "round64 (f64_sum ws) = f64_sum ws"
  by (simp add: f64_sum_def foldl_f64_add_fixed)



text \<open>
  Around \<open>10 ^ 16\<close> neighbouring binary64 values are 2 apart: the odd integers next to
  \<open>10 ^ 16\<close> are ties and round to it.
\<close>

lemma round64_1e16 [simp]: "round64 10000000000000000 = 10000000000000000"
proof (rule round64_exact [where k = 16])
  show "dyadic 16 10000000000000000" by (rule dyadicI [of _ 152587890625]) simp
qed simp_all

lemma round64_neg_1e16 [simp]: "round64 (- 10000000000000000) = - 10000000000000000"
proof (rule round64_exact [where k = 16])
  show "dyadic 16 (- 10000000000000000)" by (rule dyadicI [of _ "- 152587890625"]) simp
qed simp_all

lemma round64_1e16_plus_1 [simp]: "round64 10000000000000001 = 10000000000000000"
  by (subst round64_evalI [where e = 53 and u = 1]) (simp_all add: rhe_def)

lemma round64_1e16_minus_1 [simp]: "round64 9999999999999999 = 10000000000000000"
  by (subst round64_evalI [where e = 53 and u = 1]) (simp_all add: rhe_def)

lemmas f64_eval =
  f64_add_def f64_sub_def f64_mul_def f64_div_def f64_of_nat_def f64_sum_def
  round64_numeral round64_neg_numeral

subsection \<open>The grid edges\<close>

lemma linspace_length:
  "linspace a b num = Inr es \<Longrightarrow> length es = nat num"
  by (auto simp: linspace_def Let_def split: if_splits)


lemma axis_edges_length:
  "axis_edges len n c0 = Inr es \<Longrightarrow> length es = nat (n + 1)"
  by (auto simp: axis_edges_def split: sum.splits dest: linspace_length)

lemma grid_cell_edges:
  assumes "grid_cell u = Inr g"
  shows "length (ra_edges g) = nat (nx g + 1)" and "length (dec_edges g) = nat (ny g + 1)"
proof -
  from assms obtain lx ly cx cy where
    x: "axis_edges lx (nx g) cx = Inr (ra_edges g)"
    and y: "axis_edges ly (ny g) cy = Inr (dec_edges g)"
    by (auto simp: grid_cell_def Let_def split: sum.splits)
  show "length (ra_edges g) = nat (nx g + 1)" using x by (rule axis_edges_length)
  show "length (dec_edges g) = nat (ny g + 1)" using y by (rule axis_edges_length)
qed










subsection \<open>Bins of a monotone edge array\<close>








subsection \<open>Arrays of one shape\<close>

lemma same_shape_refl: "same_shape a a"
  by (simp add: same_shape_def list_all2_refl)


lemma same_shape_trans: "same_shape a h \<Longrightarrow> same_shape h k \<Longrightarrow> same_shape a k"
  by (auto simp: same_shape_def list_all2_conv_all_nth)


lemma iadd_Inr:
  "iadd a h = Inr a' \<Longrightarrow> same_shape a h \<and> a' = map2 (map2 f64_add) a h"
  by (auto simp: iadd_def same_shape_def split: if_splits)


lemma same_shape_map2_add:
  assumes "same_shape a h"
  shows "same_shape (map2 (map2 f64_add) a h) a"
  using assms by (auto simp: same_shape_def list_all2_conv_all_nth)





subsection \<open>What the histogram holds\<close>



lemma histogram2d_shape:
  assumes "histogram2d x y xe ye wo = Inr H"
  shows "length H = length xe - 1" and "i < length H \<Longrightarrow> length (H ! i) = length ye - 1"
  using assms by (auto simp: histogram2d_def split: if_splits option.splits)







subsection \<open>The scenario, evaluated\<close>

lemmas scenario_eval =
  SingleMapBinner_call_def offset_pointing_def np_add_def scenario_units_def
  scenario_env_def scenario_frame_def second_frame_def far_frame_def scenario_binner_def
  after_scenario_def after_second_def after_both_def
  histogram2d_def iadd_def sum_cell_def count_cell_def cell_of_def core_bin_def
  searchsorted_right_def upt_rec numeral_nat f64_eval






lemma second_then_scenario:
  "SingleMapBinner_call scenario_env after_second scenario_frame = Inr after_both"
  by (simp add: scenario_eval)




subsection \<open>Pointing reconstruction\<close>

lemma np_add_same_length:
  "length a = length b \<Longrightarrow> np_add a b = Inr (map2 np_shift a b)"
  by (simp add: np_add_def)



text \<open>
  Claim C6. For a detector whose offset is \<open>(0, 0)\<close>, the reconstructed pointing is the
  boresight pointing itself, for every boresight sequence. The conditions on the
  cosine and on \<^verbatim>\<open>U.rad\<close> keep the division \<open>0 / cos (y / U.rad)\<close> finite; over the
  reals the cosine can vanish, and NumPy's \<open>0 / 0\<close> would be not-a-number there.
\<close>

theorem zero_offset_is_boresight:
  assumes "yoff env d = Some 0" and "xoff env d = Some 0"
    and "series fr ''BoresightDec'' = Some dec" and "series fr ''BoresightRa'' = Some ra"
    and "length ra = length dec"
    and "rad (U env) \<noteq> 0" and "\<forall>v\<in>set dec. cos (v / rad (U env)) \<noteq> 0"
  shows "offset_pointing env d fr = Inr (dec, map Finite ra)"
proof -
  have "map2 np_shift ra
          (map (\<lambda>v. np_divide (Finite 0) (np_cos (np_divide (Finite v) (Finite (rad (U env)))))) dec)
        = map Finite ra"
    using assms(5,6,7) by (intro nth_equalityI) simp_all
  then show ?thesis
    using assms(1-5) by (simp add: offset_pointing_def Let_def np_add_same_length)
qed

theorem zero_offset_is_boresight_witness:
  "offset_pointing scenario_env ''det0'' scenario_frame = Inr ([0, 0, 0], map Finite [0, 1, 2])"
proof -
  have h: "yoff scenario_env ''det0'' = Some 0" "xoff scenario_env ''det0'' = Some 0"
    "series scenario_frame ''BoresightDec'' = Some [0, 0, 0]"
    "series scenario_frame ''BoresightRa'' = Some [0, 1, 2]"
    "length [0, 1, 2 :: real] = length [0, 0, 0 :: real]"
    "rad (U scenario_env) \<noteq> 0"
    "\<forall>v\<in>set [0, 0, 0 :: real]. cos (v / rad (U scenario_env)) \<noteq> 0"
    by (simp_all add: scenario_env_def scenario_frame_def scenario_units_def)
  show ?thesis by (rule zero_offset_is_boresight [OF h])
qed

subsection \<open>One call of the binner\<close>

lemma call_skip:
  assumes "tsmaps fr (timestreams b) = None
         \<or> (\<exists>tsmap. tsmaps fr (timestreams b) = Some tsmap \<and> tsmap (det b) = None)"
  shows "SingleMapBinner_call env b fr = Inr b"
  using assms by (auto simp: SingleMapBinner_call_def)


lemma call_inversion:
  assumes "SingleMapBinner_call env b fr = Inr b'"
  obtains (skip) "tsmaps fr (timestreams b) = None
           \<or> (\<exists>tsmap. tsmaps fr (timestreams b) = Some tsmap \<and> tsmap (det b) = None)"
      and "b' = b"
  | (bin) tsmap ts y x H Hc where
      "tsmaps fr (timestreams b) = Some tsmap" "tsmap (det b) = Some ts"
      "offset_pointing env (det b) fr = Inr (y, x)"
      "histogram2d (map Finite y) x (dec_edges env) (ra_edges env) (Some ts) = Inr H"
      "histogram2d (map Finite y) x (dec_edges env) (ra_edges env) None = Inr Hc"
      "same_shape (data b) H" "same_shape (hits b) Hc"
      "b' = b\<lparr>data := map2 (map2 f64_add) (data b) H, hits := map2 (map2 f64_add) (hits b) Hc\<rparr>"
proof (cases "tsmaps fr (timestreams b)")
  case None
  with assms have "b' = b" by (simp add: SingleMapBinner_call_def)
  with None show ?thesis by (intro skip disjI1)
next
  case (Some tsmap)
  show ?thesis
  proof (cases "tsmap (det b)")
    case None
    with Some assms have "b' = b" by (simp add: SingleMapBinner_call_def)
    from Some None have "tsmaps fr (timestreams b) = None
       \<or> (\<exists>tsmap. tsmaps fr (timestreams b) = Some tsmap \<and> tsmap (det b) = None)"
      by simp
    then show ?thesis using \<open>b' = b\<close> by (rule skip)
  next
    case ts: (Some ts)
    from assms Some ts obtain y x where p: "offset_pointing env (det b) fr = Inr (y, x)"
      by (auto simp: SingleMapBinner_call_def split: sum.splits)
    from assms Some ts p obtain H where
      H: "histogram2d (map Finite y) x (dec_edges env) (ra_edges env) (Some ts) = Inr H"
      by (auto simp: SingleMapBinner_call_def split: sum.splits)
    from assms Some ts p H obtain d' where d': "iadd (data b) H = Inr d'"
      by (auto simp: SingleMapBinner_call_def split: sum.splits)
    from assms Some ts p H d' obtain Hc where
      Hc: "histogram2d (map Finite y) x (dec_edges env) (ra_edges env) None = Inr Hc"
      by (auto simp: SingleMapBinner_call_def split: sum.splits)
    from assms Some ts p H d' Hc obtain h' where h': "iadd (hits b) Hc = Inr h'"
      by (auto simp: SingleMapBinner_call_def split: sum.splits)
    from assms Some ts p H d' Hc h' have b': "b' = b\<lparr>data := d', hits := h'\<rparr>"
      by (simp add: SingleMapBinner_call_def)
    from iadd_Inr [OF d'] have sd: "same_shape (data b) H"
      and ed: "d' = map2 (map2 f64_add) (data b) H" by simp_all
    from iadd_Inr [OF h'] have sh: "same_shape (hits b) Hc"
      and eh: "h' = map2 (map2 f64_add) (hits b) Hc" by simp_all
    show ?thesis
      by (rule bin [OF Some ts p H Hc sd sh]) (simp add: b' ed eh)
  qed
qed

lemma call_keeps_shape:
  assumes "SingleMapBinner_call env b fr = Inr b'"
  shows "same_shape (data b') (data b)" and "same_shape (hits b') (hits b)"
    and "det b' = det b" and "timestreams b' = timestreams b"
  using assms
  by (cases rule: call_inversion; simp add: same_shape_refl same_shape_map2_add)+




text \<open>
  Claim C4. A record that lacks the configured timestream field, or whose timestream
  map lacks the target detector, is skipped: the call raises nothing and returns the
  binner as it was, \<^verbatim>\<open>data\<close> and \<^verbatim>\<open>hits\<close> included.
\<close>

theorem skipped_record_is_noop:
  assumes "tsmaps fr (timestreams b) = None
         \<or> (\<exists>tsmap. tsmaps fr (timestreams b) = Some tsmap \<and> tsmap (det b) = None)"
  shows "SingleMapBinner_call env b fr = Inr b"
  using assms by (rule call_skip)

theorem skipped_record_is_noop_witness:
  "SingleMapBinner_call scenario_env scenario_binner housekeeping_frame = Inr scenario_binner
   \<and> SingleMapBinner_call scenario_env scenario_binner stray_frame = Inr scenario_binner"
proof -
  have a: "tsmaps housekeeping_frame (timestreams scenario_binner) = None
         \<or> (\<exists>tsmap. tsmaps housekeeping_frame (timestreams scenario_binner) = Some tsmap
                     \<and> tsmap (det scenario_binner) = None)"
    by (simp add: housekeeping_frame_def)
  have b: "tsmaps stray_frame (timestreams scenario_binner) = None
         \<or> (\<exists>tsmap. tsmaps stray_frame (timestreams scenario_binner) = Some tsmap
                     \<and> tsmap (det scenario_binner) = None)"
    by (simp add: stray_frame_def scenario_binner_def)
  show ?thesis
    using skipped_record_is_noop [OF a, of scenario_env]
      skipped_record_is_noop [OF b, of scenario_env] by simp
qed

text \<open>
  Claim C3, as stated, fails: a binner for a detector without an offset entry is
  constructed without complaint, and the missing entry surfaces as a \<^verbatim>\<open>KeyError\<close> when
  a record with data for that detector is ingested.
\<close>

theorem unknown_detector_counterexample:
  "yoff scenario_env ''det9'' = None \<and> xoff scenario_env ''det9'' = None
   \<and> SingleMapBinner_init scenario_env ''det9'' ''CalTimestreams'' = Inr stray_binner
   \<and> SingleMapBinner_call scenario_env stray_binner stray_frame = Inl (KeyError ''det9'')"
  by (simp add: scenario_env_def SingleMapBinner_init_def stray_binner_def zeros_def
      SingleMapBinner_call_def stray_frame_def offset_pointing_def numeral_nat)

text \<open>
  Claim C3, amended. The constructor does not consult the offsets: it succeeds for a
  detector without an offset entry as for any other. The missing entry is reported
  per record: every call on a record that carries the timestream field with data for
  the detector raises, and the exception is the \<^verbatim>\<open>KeyError\<close> of the detector whenever
  the record has the boresight declination; a record without the field or the
  detector is skipped without an exception. No offset is ever defaulted to zero.
\<close>

theorem unknown_detector_raises_per_record:
  assumes "yoff env d = None \<or> xoff env d = None"
  shows "(0 \<le> ny env \<and> 0 \<le> nx env \<longrightarrow> (\<exists>b0. SingleMapBinner_init env d t = Inr b0))
       \<and> (\<forall>b fr tsmap ts.
            det b = d \<and> tsmaps fr (timestreams b) = Some tsmap \<and> tsmap d = Some ts \<longrightarrow>
              (\<exists>e. SingleMapBinner_call env b fr = Inl e)
              \<and> (series fr ''BoresightDec'' \<noteq> None \<longrightarrow>
                   SingleMapBinner_call env b fr = Inl (KeyError d)))
       \<and> (\<forall>b fr. tsmaps fr (timestreams b) = None
                  \<or> (\<exists>tsmap. tsmaps fr (timestreams b) = Some tsmap \<and> tsmap (det b) = None) \<longrightarrow>
              SingleMapBinner_call env b fr = Inr b)"
proof -
  have p: "\<exists>e. offset_pointing env d fr = Inl e" for fr
    using assms by (auto simp: offset_pointing_def Let_def split: option.splits)
  have q: "offset_pointing env d fr = Inl (KeyError d)" if "series fr ''BoresightDec'' \<noteq> None" for fr
    using assms that by (auto simp: offset_pointing_def Let_def split: option.splits)
  have "(\<exists>e. SingleMapBinner_call env b fr = Inl e)
       \<and> (series fr ''BoresightDec'' \<noteq> None \<longrightarrow> SingleMapBinner_call env b fr = Inl (KeyError d))"
    if "det b = d" "tsmaps fr (timestreams b) = Some tsmap" "tsmap d = Some ts" for b fr tsmap ts
    using that p [of fr] q [of fr] by (auto simp: SingleMapBinner_call_def)
  moreover have "SingleMapBinner_call env b fr = Inr b"
    if "tsmaps fr (timestreams b) = None
        \<or> (\<exists>tsmap. tsmaps fr (timestreams b) = Some tsmap \<and> tsmap (det b) = None)" for b fr
    using that by (auto simp: SingleMapBinner_call_def)
  moreover have "0 \<le> ny env \<and> 0 \<le> nx env \<longrightarrow> (\<exists>b0. SingleMapBinner_init env d t = Inr b0)"
    by (simp add: SingleMapBinner_init_def)
  ultimately show ?thesis by blast
qed

theorem unknown_detector_raises_per_record_witness:
  "(\<exists>b0. SingleMapBinner_init scenario_env ''det9'' ''CalTimestreams'' = Inr b0)
   \<and> SingleMapBinner_call scenario_env stray_binner stray_frame = Inl (KeyError ''det9'')
   \<and> SingleMapBinner_call scenario_env stray_binner housekeeping_frame = Inr stray_binner"
proof -
  have h: "yoff scenario_env ''det9'' = None \<or> xoff scenario_env ''det9'' = None"
    by (simp add: scenario_env_def)
  have g: "0 \<le> ny scenario_env \<and> 0 \<le> nx scenario_env"
    by (simp add: scenario_env_def)
  have f: "det stray_binner = ''det9'' \<and>
      tsmaps stray_frame (timestreams stray_binner) = Some [''det9'' \<mapsto> [10, 20, 30]] \<and>
      [''det9'' \<mapsto> [10, 20, 30 :: real]] ''det9'' = Some [10, 20, 30]"
    "series stray_frame ''BoresightDec'' \<noteq> None"
    "tsmaps housekeeping_frame (timestreams stray_binner) = None"
    by (simp_all add: stray_binner_def stray_frame_def housekeeping_frame_def)
  note t = unknown_detector_raises_per_record [OF h, of "''CalTimestreams''"]
  from t g have "\<exists>b0. SingleMapBinner_init scenario_env ''det9'' ''CalTimestreams'' = Inr b0"
    by blast
  moreover from t f(1,2)
  have "SingleMapBinner_call scenario_env stray_binner stray_frame = Inl (KeyError ''det9'')"
    by blast
  moreover from t f(3)
  have "SingleMapBinner_call scenario_env stray_binner housekeeping_frame = Inr stray_binner"
    by blast
  ultimately show ?thesis by blast
qed

subsection \<open>Two records in either order\<close>





subsection \<open>The accumulated map\<close>


lemma acc_data_simps [simp]:
  "acc_data d0 [] = d0"
  "acc_data d0 (s # ss) = acc_data (f64_add d0 (f64_sum s)) ss"
  by (simp_all add: acc_data_def)

lemma acc_hits_simps [simp]:
  "acc_hits h0 [] = h0"
  "acc_hits h0 (s # ss) = acc_hits (f64_add h0 (f64_of_nat (length s))) ss"
  by (simp_all add: acc_hits_def)

lemma run_keeps_shape:
  assumes "run env b frs = Inr b'"
  shows "same_shape (data b') (data b) \<and> same_shape (hits b') (hits b)
       \<and> det b' = det b \<and> timestreams b' = timestreams b"
  using assms
proof (induction frs arbitrary: b)
  case Nil
  then show ?case by (simp add: same_shape_refl)
next
  case (Cons fr frs)
  from Cons.prems obtain b1 where c: "SingleMapBinner_call env b fr = Inr b1"
    and r: "run env b1 frs = Inr b'"
    by (auto split: sum.splits)
  from Cons.IH [OF r] call_keeps_shape [OF c] show ?case
    by (auto intro: same_shape_trans)
qed


lemma init_shape:
  assumes "SingleMapBinner_init env d t = Inr b0"
  shows "data b0 = zeros (nat (ny env)) (nat (nx env))"
    and "hits b0 = zeros (nat (ny env)) (nat (nx env))"
    and "det b0 = d" and "timestreams b0 = t"
  using assms by (auto simp: SingleMapBinner_init_def split: if_splits)






lemma acc_hits_empty:
  assumes "\<forall>s \<in> set ss. s = []" and "round64 h0 = h0"
  shows "acc_hits h0 ss = h0"
  using assms by (induction ss arbitrary: h0) (simp_all add: f64_add_zero_right)







text \<open>
  With edge arrays of \<^verbatim>\<open>ny + 1\<close> and \<^verbatim>\<open>nx + 1\<close> entries, which is what the grid cell
  builds, every histogram has the shape of the grids of every binner reached from the
  constructor, so the in-place additions never raise.
\<close>

lemma histogram_fits_grid:
  assumes "length (dec_edges env) = nat (ny env + 1)"
    and "length (ra_edges env) = nat (nx env + 1)"
    and "SingleMapBinner_init env d t = Inr b0" and "run env b0 frs = Inr b"
    and "histogram2d y x (dec_edges env) (ra_edges env) w = Inr H"
  shows "iadd (data b) H = Inr (map2 (map2 f64_add) (data b) H)"
    and "iadd (hits b) H = Inr (map2 (map2 f64_add) (hits b) H)"
proof -
  from assms(3) have nn: "0 \<le> ny env" "0 \<le> nx env"
    by (auto simp: SingleMapBinner_init_def split: if_splits)
  note s = init_shape [OF assms(3)]
  note h = histogram2d_shape [OF assms(5)]
  have lH: "length H = nat (ny env)" using h(1) assms(1) nn by (simp add: nat_add_distrib)
  have rH: "length (H ! i) = nat (nx env)" if "i < length H" for i
    using h(2) [OF that] assms(2) nn by (simp add: nat_add_distrib)
  have z: "same_shape (zeros (nat (ny env)) (nat (nx env))) H"
    using lH rH by (simp add: same_shape_def list_all2_conv_all_nth zeros_def)
  from run_keeps_shape [OF assms(4)]
  have "same_shape (data b) H" and "same_shape (hits b) H"
    using z by (auto simp: s intro: same_shape_trans)
  then show "iadd (data b) H = Inr (map2 (map2 f64_add) (data b) H)"
    and "iadd (hits b) H = Inr (map2 (map2 f64_add) (hits b) H)"
    by (simp_all add: iadd_def same_shape_def)
qed






subsection \<open>The mean filters\<close>

lemma sum_list_shift:
  fixes xs :: "real list"
  shows "sum_list (map (\<lambda>s. s - m) xs) = sum_list xs - real (length xs) * m"
  by (induction xs) (simp_all add: algebra_simps)

lemma mean_after_subtraction:
  assumes "arithmetic_mean xs = Some m"
  shows "arithmetic_mean (map (\<lambda>s. s - m) xs) = Some 0"
proof -
  from assms have ne: "xs \<noteq> []" and m: "m = sum_list xs / real (length xs)"
    by (auto simp: arithmetic_mean_def split: if_splits)
  from ne have "real (length xs) * m = sum_list xs" by (simp add: m)
  then show ?thesis using ne by (simp add: arithmetic_mean_def sum_list_shift)
qed

lemma MeanFilter_mean:
  assumes "xs \<noteq> []"
  shows "arithmetic_mean (MeanFilter xs) = Some 0"
proof -
  from assms obtain m where m: "arithmetic_mean xs = Some m"
    by (auto simp: arithmetic_mean_def)
  then show ?thesis by (simp add: MeanFilter_def mean_after_subtraction)
qed

lemma MeanFilter_idem: "MeanFilter (MeanFilter xs) = MeanFilter xs"
proof (cases "xs = []")
  case True
  then show ?thesis by (simp add: MeanFilter_def arithmetic_mean_def)
next
  case False
  then have "arithmetic_mean (MeanFilter xs) = Some 0" by (rule MeanFilter_mean)
  then show ?thesis by (simp add: MeanFilter_def [of "MeanFilter xs"])
qed

lemma MeanFilter_Nil_iff: "(MeanFilter xs = []) = (xs = [])"
  by (auto simp: MeanFilter_def split: option.splits)

text \<open>
  Claim C8. Applying \<^verbatim>\<open>MeanFilter\<close> twice gives what applying it once gives, for a
  sample sequence and for every detector of a record: after one application the mean
  of every non-empty timestream is zero, so the second pass subtracts zero.
\<close>

theorem mean_filter_idempotent:
  "MeanFilter (MeanFilter samples) = MeanFilter samples
   \<and> MeanFilter_record (MeanFilter_record r) = MeanFilter_record r
   \<and> (\<forall>d ys. MeanFilter_record r d = Some ys \<and> ys \<noteq> [] \<longrightarrow> arithmetic_mean ys = Some 0)"
proof -
  have "MeanFilter_record (MeanFilter_record r) = MeanFilter_record r"
    by (rule ext) (simp add: MeanFilter_record_def option.map_comp comp_def MeanFilter_idem)
  moreover have "arithmetic_mean ys = Some 0"
    if "MeanFilter_record r d = Some ys" "ys \<noteq> []" for d ys
  proof -
    from that(1) obtain xs where "r d = Some xs" and ys: "ys = MeanFilter xs"
      by (auto simp: MeanFilter_record_def)
    with that(2) have "xs \<noteq> []" by (simp add: MeanFilter_Nil_iff)
    then show ?thesis unfolding ys by (rule MeanFilter_mean)
  qed
  ultimately show ?thesis using MeanFilter_idem [of samples] by blast
qed

theorem mean_filter_idempotent_witness:
  "MeanFilter [1, 2, 6] = [- 2, - 1, 3]
   \<and> MeanFilter (MeanFilter [1, 2, 6]) = MeanFilter [1, 2, 6]
   \<and> MeanFilter_record [''det0'' \<mapsto> [1, 2, 6]] ''det0'' = Some [- 2, - 1, 3]
   \<and> arithmetic_mean [- 2, - 1, 3] = Some 0"
proof -
  have e: "MeanFilter [1, 2, 6] = [- 2, - 1, 3]"
    by (simp add: MeanFilter_def arithmetic_mean_def)
  have f: "MeanFilter_record [''det0'' \<mapsto> [1, 2, 6]] ''det0'' = Some [- 2, - 1, 3]"
    by (simp add: MeanFilter_record_def e)
  note t = mean_filter_idempotent [of "[1, 2, 6]" "[''det0'' \<mapsto> [1, 2, 6]]"]
  from t f have "arithmetic_mean [- 2, - 1, 3] = Some 0" by blast
  with t e f show ?thesis by simp
qed

lemma sum_list_spike:
  fixes xs :: "real list"
  assumes "k < length xs"
  shows "sum_list (xs[k := xs ! k + a]) = sum_list xs + a"
  using assms
proof (induction xs arbitrary: k)
  case Nil
  then show ?case by simp
next
  case (Cons x xs)
  then show ?case by (cases k) simp_all
qed

lemma sum_list_const:
  fixes b :: real
  assumes "\<forall>x \<in> set xs. x = b"
  shows "sum_list xs = real (length xs) * b"
  using assms by (induction xs) (simp_all add: algebra_simps)

lemma mean_const:
  assumes "xs \<noteq> []" and "\<forall>x \<in> set xs. x = b"
  shows "arithmetic_mean xs = Some b"
  using assms by (simp add: arithmetic_mean_def sum_list_const)

lemma spike_record_props:
  assumes "k < n"
  shows "length (spike_record n b k a) = n"
    and "spike_record n b k a ! k = b + a"
    and "\<And>i. i < n \<Longrightarrow> i \<noteq> k \<Longrightarrow> spike_record n b k a ! i = b"
    and "sum_list (spike_record n b k a) = real n * b + a"
proof -
  show "length (spike_record n b k a) = n" by (simp add: spike_record_def)
  show "spike_record n b k a ! k = b + a" using assms by (simp add: spike_record_def)
  show "\<And>i. i < n \<Longrightarrow> i \<noteq> k \<Longrightarrow> spike_record n b k a ! i = b"
    by (simp add: spike_record_def)
  have "sum_list ((replicate n b)[k := replicate n b ! k + a]) = sum_list (replicate n b) + a"
    using assms by (intro sum_list_spike) simp
  then show "sum_list (spike_record n b k a) = real n * b + a"
    using assms by (simp add: spike_record_def sum_list_replicate)
qed

lemma masked_mean_spike:
  assumes k: "k < n" and len: "length pointing = n"
    and inside: "angdist (pointing ! k) center \<le> radius"
    and some: "\<exists>i<n. radius < angdist (pointing ! i) center"
  shows "masked_mean angdist (spike_record n b k a) pointing center radius = Some b"
proof -
  let ?kept = "filter (\<lambda>sp. radius < angdist (snd sp) center) (zip (spike_record n b k a) pointing)"
  note p = spike_record_props [OF k, where b = b and a = a]
  have all_b: "\<forall>x \<in> set (map fst ?kept). x = b"
  proof
    fix x assume "x \<in> set (map fst ?kept)"
    then obtain q where q: "(x, q) \<in> set (zip (spike_record n b k a) pointing)"
      and far: "radius < angdist q center"
      by auto
    from q obtain i where i: "i < n" and x: "x = spike_record n b k a ! i" and qi: "q = pointing ! i"
      using p(1) len by (auto simp: in_set_zip)
    from far qi inside have "i \<noteq> k" by auto
    with i x show "x = b" by (simp add: p(3))
  qed
  from some obtain i where i: "i < n" and far: "radius < angdist (pointing ! i) center" by blast
  have "(spike_record n b k a ! i, pointing ! i) \<in> set (zip (spike_record n b k a) pointing)"
    using i p(1) len by (auto simp: in_set_zip)
  with far have "(spike_record n b k a ! i, pointing ! i) \<in> set ?kept" by simp
  then have "0 < length ?kept" by (rule length_pos_if_in_set)
  then have "?kept \<noteq> []" by simp
  then have "map fst ?kept \<noteq> []" by simp
  then show ?thesis
    unfolding masked_mean_def using all_b by (rule mean_const)
qed

text \<open>
  Claim C9. For a record of constant background \<open>b\<close> with a single spike of
  magnitude \<open>a\<close> at a sample that points within \<^verbatim>\<open>radius\<close> of \<^verbatim>\<open>center\<close>, and with
  background left outside the mask (at least one sample farther than \<^verbatim>\<open>radius\<close>),
  the masked mean is exactly \<open>b\<close>, whatever \<open>a\<close> is; the unmasked mean is
  \<open>b + a / n\<close>; and \<^verbatim>\<open>MaskedMeanFilter\<close> subtracts \<open>b\<close> from every sample, the masked
  spike included, which is left at \<open>a\<close>.
\<close>

theorem masked_mean_ignores_spike:
  assumes "k < n" and "length pointing = n"
    and "angdist (pointing ! k) center \<le> radius"
    and "\<exists>i<n. radius < angdist (pointing ! i) center"
  shows "masked_mean angdist (spike_record n b k a) pointing center radius = Some b
       \<and> arithmetic_mean (spike_record n b k a) = Some (b + a / real n)
       \<and> MaskedMeanFilter angdist (spike_record n b k a) pointing center radius
           = Some (map (\<lambda>s. s - b) (spike_record n b k a))
       \<and> map (\<lambda>s. s - b) (spike_record n b k a) ! k = a"
proof -
  note p = spike_record_props [OF assms(1), where b = b and a = a]
  note m = masked_mean_spike [where angdist = angdist and b = b and a = a, OF assms]
  have ne: "spike_record n b k a \<noteq> []" using p(1) assms(1) by auto
  have "arithmetic_mean (spike_record n b k a) = Some (b + a / real n)"
    using ne assms(1) by (simp add: arithmetic_mean_def p(1,4) add_divide_distrib)
  moreover have "map (\<lambda>s. s - b) (spike_record n b k a) ! k = a"
    using assms(1) p(1,2) by simp
  ultimately show ?thesis using m by (simp add: MaskedMeanFilter_def)
qed

theorem masked_mean_ignores_spike_witness:
  "masked_mean line_dist (spike_record 4 5 1 100) [10, 0, 10, 10] 0 1 = Some 5
   \<and> arithmetic_mean (spike_record 4 5 1 100) = Some (5 + 100 / real 4)
   \<and> MaskedMeanFilter line_dist (spike_record 4 5 1 100) [10, 0, 10, 10] 0 1
       = Some (map (\<lambda>s. s - 5) (spike_record 4 5 1 100))
   \<and> map (\<lambda>s. s - 5) (spike_record 4 5 1 100) ! 1 = 100
   \<and> spike_record 4 5 1 100 = [5, 105, 5, 5]"
proof -
  have h: "(1::nat) < 4" "length [10, 0, 10, 10 :: real] = 4"
    "line_dist ([10, 0, 10, 10] ! 1) 0 \<le> 1"
    "\<exists>i<4. 1 < line_dist ([10, 0, 10, 10] ! i) 0"
    by (simp_all add: line_dist_def exI [of _ 0])
  have "spike_record 4 5 1 100 = [5, 105, 5, 5]"
    by (simp add: spike_record_def numeral_nat)
  then show ?thesis
    using masked_mean_ignores_spike [where angdist = line_dist and pointing = "[10, 0, 10, 10]"
        and center = 0 and radius = 1 and k = 1 and n = 4 and b = 5 and a = 100, OF h]
    by simp
qed

end
